theory Spec2Isabelle
  imports Main
begin

section \<open>Python strings\<close>

text \<open>
  A Python \<open>str\<close> is a sequence of Unicode code points, and \<open>len\<close> counts code points.
  A string is therefore a list of code-point numbers, not of bytes.
\<close>

type_synonym ustring = "nat list"

definition ustr :: "string \<Rightarrow> ustring" where
  "ustr s = map of_char s"

definition SPACE :: nat where "SPACE = 32"
definition NEWLINE :: nat where "NEWLINE = 10"
definition HASH :: nat where "HASH = 35"
definition SLASH :: nat where "SLASH = 47"
definition LBRACKET :: nat where "LBRACKET = 91"
definition RBRACKET :: nat where "RBRACKET = 93"

text \<open>
  The characters that \<open>str.strip()\<close> removes: the code points for which
  \<open>str.isspace()\<close> holds.
\<close>

definition py_isspace :: "nat \<Rightarrow> bool" where
  "py_isspace c \<longleftrightarrow>
     (9 \<le> c \<and> c \<le> 13) \<or> (28 \<le> c \<and> c \<le> 32) \<or> c = 133 \<or> c = 160 \<or> c = 5760 \<or>
     (8192 \<le> c \<and> c \<le> 8202) \<or> c = 8232 \<or> c = 8233 \<or> c = 8239 \<or> c = 8287 \<or> c = 12288"

text \<open>\<open>s.strip()\<close>\<close>

definition strip :: "ustring \<Rightarrow> ustring" where
  "strip s = rev (dropWhile py_isspace (rev (dropWhile py_isspace s)))"

text \<open>\<open>s.startswith(p)\<close> and \<open>s.endswith(p)\<close>\<close>

definition startswith :: "ustring \<Rightarrow> ustring \<Rightarrow> bool" where
  "startswith s p \<longleftrightarrow> take (length p) s = p"

definition endswith :: "ustring \<Rightarrow> ustring \<Rightarrow> bool" where
  "endswith s p \<longleftrightarrow> length p \<le> length s \<and> drop (length s - length p) s = p"

text \<open>
  \<open>s[1:-1]\<close>: the empty string when \<open>s\<close> has fewer than two characters. Slicing
  never raises.
\<close>

definition slice_1_m1 :: "ustring \<Rightarrow> ustring" where
  "slice_1_m1 s = butlast (tl s)"

text \<open>
  \<open>s.split(sep, maxsplit)\<close> for a one-character separator: at most \<open>maxsplit\<close> cuts,
  from the left; the last piece is the uncut remainder.
\<close>

fun py_split_max :: "ustring \<Rightarrow> nat \<Rightarrow> nat \<Rightarrow> ustring list" where
  "py_split_max s sep 0 = [s]"
| "py_split_max s sep (Suc n) =
     (if sep \<in> set s
      then takeWhile (\<lambda>c. c \<noteq> sep) s # py_split_max (tl (dropWhile (\<lambda>c. c \<noteq> sep) s)) sep n
      else [s])"

text \<open>\<open>s.split(sep)\<close> for a one-character separator: a cut at every occurrence.\<close>

function py_split :: "ustring \<Rightarrow> nat \<Rightarrow> ustring list" where
  "py_split s sep =
     (if sep \<in> set s
      then takeWhile (\<lambda>c. c \<noteq> sep) s # py_split (tl (dropWhile (\<lambda>c. c \<noteq> sep) s)) sep
      else [s])"
  by pat_completeness auto
termination
proof (relation "measure (\<lambda>(s, sep). length s)")
  show "wf (measure (\<lambda>(s, sep). length s))" by simp
next
  fix s :: ustring and sep :: nat
  assume "sep \<in> set s"
  then have "dropWhile (\<lambda>c. c \<noteq> sep) s \<noteq> []" by simp
  then have "length (tl (dropWhile (\<lambda>c. c \<noteq> sep) s)) < length (dropWhile (\<lambda>c. c \<noteq> sep) s)"
    by (cases "dropWhile (\<lambda>c. c \<noteq> sep) s") simp_all
  also have "\<dots> \<le> length s" by (rule length_dropWhile_le)
  finally show "((tl (dropWhile (\<lambda>c. c \<noteq> sep) s), sep), (s, sep)) \<in> measure (\<lambda>(s, sep). length s)"
    by simp
qed

declare py_split.simps [simp del]

text \<open>\<open>sep.join(xs)\<close>\<close>

fun join :: "ustring \<Rightarrow> ustring list \<Rightarrow> ustring" where
  "join sep [] = []"
| "join sep [x] = x"
| "join sep (x # y # ys) = x @ sep @ join sep (y # ys)"

section \<open>The regular expression substitution\<close>

text \<open>
  \<open>re.sub(r'\[.*?\]', '', rest)\<close>. The pattern is an opening bracket, as few characters
  as possible other than a newline (no DOTALL flag), and a closing bracket. Scanning
  from the left, a match at an opening bracket ends at the first closing bracket after
  it, provided no newline lies between; otherwise the opening bracket stays in the text.
  \<open>match_bracket\<close> takes the text after an opening bracket and returns what follows the
  match.
\<close>

fun match_bracket :: "ustring \<Rightarrow> ustring option" where
  "match_bracket [] = None"
| "match_bracket (c # cs) =
     (if c = RBRACKET then Some cs
      else if c = NEWLINE then None
      else match_bracket cs)"

function re_sub_brackets :: "ustring \<Rightarrow> ustring" where
  "re_sub_brackets [] = []"
| "re_sub_brackets (c # cs) =
     (if c = LBRACKET
      then (case match_bracket cs of
              Some r \<Rightarrow> re_sub_brackets r
            | None \<Rightarrow> c # re_sub_brackets cs)
      else c # re_sub_brackets cs)"
  by pat_completeness auto
termination
proof (relation "measure length")
  show "wf (measure length)" by simp
next
  fix c :: nat and cs r :: ustring
  assume "match_bracket cs = Some r"
  then have "length r < length cs"
    by (induction cs) (auto split: if_splits)
  then show "(r, c # cs) \<in> measure length" by simp
next
  fix c :: nat and cs :: ustring
  show "(cs, c # cs) \<in> measure length" by simp
next
  fix c :: nat and cs :: ustring
  show "(cs, c # cs) \<in> measure length" by simp
qed

section \<open>Exceptions and indexing\<close>

text \<open>
  The exceptions that can leave the program's functions: the IndexError of an index
  out of range, and whatever the imported library raises. \<open>xs[i]\<close> for a literal
  index \<open>i \<ge> 0\<close> returns the element or raises IndexError. The string methods,
  \<open>re.sub\<close> with a valid pattern, slicing and \<open>len\<close> do not raise on strings.
\<close>

datatype py_error = IndexError | LibraryError ustring

definition py_index :: "'a list \<Rightarrow> nat \<Rightarrow> py_error + 'a" where
  "py_index xs i = (if i < length xs then Inr (xs ! i) else Inl IndexError)"

section \<open>The transliteration library\<close>

text \<open>
  \<open>pypinyin.pinyin(characters, style=...)\<close> is imported, not part of the program. It
  is a parameter of the model: given the characters and the style it either raises or
  returns a list of items, each item a list of readings.
\<close>

datatype style = TONE | BOPOMOFO

type_synonym pinyin_lib = "ustring \<Rightarrow> style \<Rightarrow> py_error + ustring list list"

text \<open>
  \<open>[item[0] for item in xs if item[0]]\<close>: \<open>item[0]\<close> raises IndexError on an empty
  item; an empty first reading is left out.
\<close>

fun first_readings :: "ustring list list \<Rightarrow> py_error + ustring list" where
  "first_readings [] = Inr []"
| "first_readings (item # items) =
     (case py_index item 0 of
        Inl e \<Rightarrow> Inl e
      | Inr r \<Rightarrow>
          (case first_readings items of
             Inl e \<Rightarrow> Inl e
           | Inr rs \<Rightarrow> Inr (if r \<noteq> [] then r # rs else rs)))"

definition get_zhuyin_from_characters :: "pinyin_lib \<Rightarrow> ustring \<Rightarrow> py_error + ustring" where
  "get_zhuyin_from_characters lib characters =
     (if characters = [] then Inr []
      else case lib characters BOPOMOFO of
             Inl e \<Rightarrow> Inl e
           | Inr zhuyin_list \<Rightarrow>
               (case first_readings zhuyin_list of
                  Inl e \<Rightarrow> Inl e
                | Inr rs \<Rightarrow> Inr (join [SPACE] rs)))"

definition get_pinyin_from_characters :: "pinyin_lib \<Rightarrow> ustring \<Rightarrow> py_error + ustring" where
  "get_pinyin_from_characters lib characters =
     (if characters = [] then Inr []
      else case lib characters TONE of
             Inl e \<Rightarrow> Inl e
           | Inr pinyin_list \<Rightarrow>
               (case first_readings pinyin_list of
                  Inl e \<Rightarrow> Inl e
                | Inr rs \<Rightarrow> Inr (join [SPACE] rs)))"

section \<open>The line parser\<close>

record entry =
  traditional :: ustring
  simplified :: ustring
  pinyin :: ustring
  zhuyin :: ustring
  meaning :: "ustring list"
  is_idiom :: bool

text \<open>
  The glosses of lines 107 to 115: the bracketed spans are removed from \<open>rest\<close>, the
  result is stripped, and the pieces between slashes are kept when the text both starts
  and ends with a slash.
\<close>

definition meanings_of :: "ustring \<Rightarrow> ustring list" where
  "meanings_of rest =
     (let meaning_part = strip (re_sub_brackets rest) in
      if startswith meaning_part [SLASH] \<and> endswith meaning_part [SLASH]
      then [strip m. m \<leftarrow> py_split (slice_1_m1 meaning_part) SLASH, strip m \<noteq> []]
      else [])"

text \<open>
  \<open>parse_cc_cedict_line\<close>: \<open>Inl\<close> is an exception that leaves the function,
  \<open>Inr None\<close> is the return value \<open>None\<close>, \<open>Inr (Some e)\<close> the returned dictionary.
  \<open>parts[0]\<close>, \<open>parts[1]\<close> and \<open>parts[2]\<close> are indexing operations that raise
  IndexError out of range. The pinyin is computed before the glosses and the zhuyin
  after them, as in the source.
\<close>

definition parse_cc_cedict_line :: "pinyin_lib \<Rightarrow> ustring \<Rightarrow> py_error + entry option" where
  "parse_cc_cedict_line lib line0 =
     (if strip line0 = [] \<or> startswith line0 [HASH] then Inr None
      else
        let line = strip line0;
            parts = py_split_max line SPACE 2
        in if length parts < 3 then Inr None
           else
             (case py_index parts 0 of
                Inl e \<Rightarrow> Inl e
              | Inr trad \<Rightarrow>
             (case py_index parts 1 of
                Inl e \<Rightarrow> Inl e
              | Inr simpl \<Rightarrow>
             (case py_index parts 2 of
                Inl e \<Rightarrow> Inl e
              | Inr rest \<Rightarrow>
             (case get_pinyin_from_characters lib trad of
                Inl e \<Rightarrow> Inl e
              | Inr py \<Rightarrow>
                  (let meanings = meanings_of rest;
                       idiom = (length trad \<ge> 4 \<or> length simpl \<ge> 4)
                   in (case get_zhuyin_from_characters lib trad of
                         Inl e \<Rightarrow> Inl e
                       | Inr zy \<Rightarrow>
                           Inr (Some \<lparr>traditional = trad, simplified = simpl,
                                      pinyin = py, zhuyin = zy,
                                      meaning = meanings, is_idiom = idiom\<rparr>))))))))"

section \<open>The batch driver\<close>

text \<open>
  \<open>parse_cc_cedict_file\<close>, from the lines of the opened file on. The loop keeps the
  1-based line number, the list of entries, and the warnings printed so far; a warning
  is the line number and the exception that the message shows. Opening and decoding
  the file, whose failure ends the program in the outer \<open>try\<close>, lies before the model:
  it starts from the list of decoded lines.
\<close>

type_synonym warning = "nat \<times> py_error"

fun parse_lines ::
  "pinyin_lib \<Rightarrow> nat \<Rightarrow> ustring list \<Rightarrow> entry list \<Rightarrow> warning list \<Rightarrow> entry list \<times> warning list"
where
  "parse_lines lib line_num [] entries warnings = (entries, warnings)"
| "parse_lines lib line_num (line # lines) entries warnings =
     (case parse_cc_cedict_line lib line of
        Inr (Some parsed_entry) \<Rightarrow>
          parse_lines lib (Suc line_num) lines (entries @ [parsed_entry]) warnings
      | Inr None \<Rightarrow> parse_lines lib (Suc line_num) lines entries warnings
      | Inl e \<Rightarrow> parse_lines lib (Suc line_num) lines entries (warnings @ [(line_num, e)]))"

definition parse_cc_cedict_file :: "pinyin_lib \<Rightarrow> ustring list \<Rightarrow> entry list \<times> warning list" where
  "parse_cc_cedict_file lib lines = parse_lines lib 1 lines [] []"

section \<open>Notions used in the statements\<close>

text \<open>
  The first whitespace-delimited token of a line, as \<open>line.split()[0]\<close> would give
  it: leading whitespace is passed over, the token runs up to the next whitespace
  character.
\<close>

definition first_ws_token :: "ustring \<Rightarrow> ustring" where
  "first_ws_token line = takeWhile (\<lambda>c. \<not> py_isspace c) (dropWhile py_isspace line)"



text \<open>
  The transliteration step is total for a library when neither
  \<open>get_pinyin_from_characters\<close> nor \<open>get_zhuyin_from_characters\<close> raises on any text.
\<close>

definition oracle_total :: "pinyin_lib \<Rightarrow> bool" where
  "oracle_total lib \<longleftrightarrow>
     (\<forall>characters. \<exists>py. get_pinyin_from_characters lib characters = Inr py) \<and>
     (\<forall>characters. \<exists>zy. get_zhuyin_from_characters lib characters = Inr zy)"

text \<open>
  The gloss list in the words of the specification: remove the bracketed spans from the
  remainder and trim; if the result starts and ends with a slash, drop that first and
  that last character, split at every slash, trim each piece and keep the non-empty
  pieces in order; otherwise the list is empty.
\<close>

definition spec_glosses :: "ustring \<Rightarrow> ustring list" where
  "spec_glosses rest =
     (let g = strip (re_sub_brackets rest) in
      if g \<noteq> [] \<and> hd g = SLASH \<and> last g = SLASH
      then filter (\<lambda>p. p \<noteq> []) (map strip (py_split (butlast (tl g)) SLASH))
      else [])"

section \<open>Sample libraries\<close>

text \<open>
  Two concrete libraries for evaluating the parser: one gives every character itself as
  its only reading, the other does the same but raises on text containing \<open>X\<close>.
\<close>

definition echo_lib :: pinyin_lib where
  "echo_lib characters st = Inr (map (\<lambda>c. [[c]]) characters)"

definition faulty_lib :: pinyin_lib where
  "faulty_lib characters st =
     (if 88 \<in> set characters then Inl (LibraryError (ustr ''no reading''))
      else Inr (map (\<lambda>c. [[c]]) characters))"

section \<open>Properties of the string operations\<close>




lemma count_dropWhile_le: "count_list (dropWhile P xs) c \<le> count_list xs c"
  by (induction xs) auto

lemma count_strip_le: "count_list (strip x) c \<le> count_list x c"
proof -
  have "count_list (strip x) c = count_list (dropWhile py_isspace (rev (dropWhile py_isspace x))) c"
    by (simp add: strip_def)
  also have "\<dots> \<le> count_list (rev (dropWhile py_isspace x)) c"
    by (rule count_dropWhile_le)
  also have "\<dots> = count_list (dropWhile py_isspace x) c" by simp
  also have "\<dots> \<le> count_list x c" by (rule count_dropWhile_le)
  finally show ?thesis .
qed

lemma strip_last_not_space:
  assumes "strip s \<noteq> []"
  shows "\<not> py_isspace (last (strip s))"
proof -
  let ?d = "dropWhile py_isspace (rev (dropWhile py_isspace s))"
  from assms have ne: "?d \<noteq> []" by (simp add: strip_def)
  then have "\<not> py_isspace (hd ?d)" by (rule hd_dropWhile)
  moreover have "last (strip s) = hd ?d" using ne by (simp add: strip_def last_rev)
  ultimately show ?thesis by simp
qed

lemma dropWhile_snoc: "\<not> P a \<Longrightarrow> dropWhile P (xs @ [a]) = dropWhile P xs @ [a]"
  by (induction xs) auto

lemma strip_hd_not_space:
  assumes "strip s \<noteq> []"
  shows "\<not> py_isspace (hd (strip s))"
proof -
  let ?a = "dropWhile py_isspace s"
  have "strip s = rev (dropWhile py_isspace (rev ?a))" by (simp add: strip_def)
  from assms have ne: "?a \<noteq> []" by (auto simp: strip_def dest: set_dropWhileD)
  then have h: "\<not> py_isspace (hd ?a)" by (rule hd_dropWhile)
  obtain a as where a: "?a = a # as" using ne by (cases ?a) auto
  with h have na: "\<not> py_isspace a" by simp
  have "dropWhile py_isspace (rev as @ [a]) = dropWhile py_isspace (rev as) @ [a]"
    using na by (rule dropWhile_snoc)
  then have "strip s = a # rev (dropWhile py_isspace (rev as))"
    using a by (simp add: strip_def)
  with na show ?thesis by simp
qed




lemma split_step:
  assumes "sep \<in> set x"
  shows "x = takeWhile (\<lambda>c. c \<noteq> sep) x @ sep # tl (dropWhile (\<lambda>c. c \<noteq> sep) x)"
proof -
  from assms have ne: "dropWhile (\<lambda>c. c \<noteq> sep) x \<noteq> []" by simp
  then have "hd (dropWhile (\<lambda>c. c \<noteq> sep) x) = sep"
    using hd_dropWhile [of "\<lambda>c. c \<noteq> sep" x] by simp
  with ne have "dropWhile (\<lambda>c. c \<noteq> sep) x = sep # tl (dropWhile (\<lambda>c. c \<noteq> sep) x)"
    by (cases "dropWhile (\<lambda>c. c \<noteq> sep) x") simp_all
  then show ?thesis
    using takeWhile_dropWhile_id [of "\<lambda>c. c \<noteq> sep" x] by simp
qed

lemma takeWhile_no_sep: "sep \<notin> set (takeWhile (\<lambda>c. c \<noteq> sep) x)"
  by (induction x) auto

lemma takeWhile_sep_append: "sep \<notin> set t \<Longrightarrow> takeWhile (\<lambda>c. c \<noteq> sep) (t @ sep # r) = t"
  by (induction t) auto

lemma dropWhile_sep_append: "sep \<notin> set t \<Longrightarrow> dropWhile (\<lambda>c. c \<noteq> sep) (t @ sep # r) = sep # r"
  by (induction t) auto

lemma py_split_max_2_parts:
  assumes "sep \<notin> set t" "sep \<notin> set s"
  shows "py_split_max (t @ sep # s @ sep # r) sep 2 = [t, s, r]"
  using assms
  by (simp add: numeral_2_eq_2 takeWhile_sep_append dropWhile_sep_append)

lemma py_split_max_length: "length (py_split_max x sep n) \<le> Suc n"
  by (induction n arbitrary: x) auto

lemma py_split_max_2_cases:
  "length (py_split_max x sep 2) < 3 \<or>
   (\<exists>t s r. x = t @ sep # s @ sep # r \<and> sep \<notin> set t \<and> sep \<notin> set s \<and> py_split_max x sep 2 = [t, s, r])"
proof (cases "sep \<in> set x")
  case False
  then show ?thesis by (simp add: numeral_2_eq_2)
next
  case True
  define t where "t = takeWhile (\<lambda>c. c \<noteq> sep) x"
  define y where "y = tl (dropWhile (\<lambda>c. c \<noteq> sep) x)"
  have x: "x = t @ sep # y" unfolding t_def y_def using True by (rule split_step)
  have t: "sep \<notin> set t" unfolding t_def by (rule takeWhile_no_sep)
  show ?thesis
  proof (cases "sep \<in> set y")
    case False
    then show ?thesis using True by (simp add: numeral_2_eq_2 y_def)
  next
    case True
    define s where "s = takeWhile (\<lambda>c. c \<noteq> sep) y"
    define r where "r = tl (dropWhile (\<lambda>c. c \<noteq> sep) y)"
    have y: "y = s @ sep # r" unfolding s_def r_def using True by (rule split_step)
    have s: "sep \<notin> set s" unfolding s_def by (rule takeWhile_no_sep)
    have "x = t @ sep # s @ sep # r" using x y by simp
    moreover have "py_split_max x sep 2 = [t, s, r]"
      using py_split_max_2_parts [OF t s, of r] x y by simp
    ultimately show ?thesis using t s by blast
  qed
qed



section \<open>Properties of the bracket removal and of the token list\<close>








section \<open>The shape of the parser's result\<close>

lemma parse_skip:
  "strip line = [] \<or> startswith line [HASH] \<Longrightarrow> parse_cc_cedict_line lib line = Inr None"
  by (simp add: parse_cc_cedict_line_def)

lemma parse_short:
  "length (py_split_max (strip line) SPACE 2) < 3 \<Longrightarrow> parse_cc_cedict_line lib line = Inr None"
  by (simp add: parse_cc_cedict_line_def Let_def)

lemma parse_parts:
  assumes "strip line \<noteq> []" "\<not> startswith line [HASH]"
    and "py_split_max (strip line) SPACE 2 = [t, s, r]"
  shows "parse_cc_cedict_line lib line =
     (case get_pinyin_from_characters lib t of
        Inl e \<Rightarrow> Inl e
      | Inr py \<Rightarrow>
          (case get_zhuyin_from_characters lib t of
             Inl e \<Rightarrow> Inl e
           | Inr zy \<Rightarrow>
               Inr (Some \<lparr>traditional = t, simplified = s, pinyin = py, zhuyin = zy,
                          meaning = meanings_of r,
                          is_idiom = (4 \<le> length t \<or> 4 \<le> length s)\<rparr>)))"
  using assms by (simp add: parse_cc_cedict_line_def py_index_def Let_def split: sum.splits)

lemma parse_cases:
  "parse_cc_cedict_line lib line = Inr None \<or>
   (\<exists>t s r. strip line = t @ SPACE # s @ SPACE # r \<and> SPACE \<notin> set t \<and> SPACE \<notin> set s \<and>
      \<not> startswith line [HASH] \<and>
      parse_cc_cedict_line lib line =
        (case get_pinyin_from_characters lib t of
           Inl e \<Rightarrow> Inl e
         | Inr py \<Rightarrow>
             (case get_zhuyin_from_characters lib t of
                Inl e \<Rightarrow> Inl e
              | Inr zy \<Rightarrow>
                  Inr (Some \<lparr>traditional = t, simplified = s, pinyin = py, zhuyin = zy,
                             meaning = meanings_of r,
                             is_idiom = (4 \<le> length t \<or> 4 \<le> length s)\<rparr>))))"
proof (cases "strip line = [] \<or> startswith line [HASH]")
  case True
  then show ?thesis by (simp add: parse_skip)
next
  case False
  from py_split_max_2_cases [of "strip line" SPACE]
  show ?thesis
  proof
    assume "length (py_split_max (strip line) SPACE 2) < 3"
    then show ?thesis by (simp add: parse_short)
  next
    assume "\<exists>t s r. strip line = t @ SPACE # s @ SPACE # r \<and> SPACE \<notin> set t \<and> SPACE \<notin> set s \<and>
      py_split_max (strip line) SPACE 2 = [t, s, r]"
    then obtain t s r where d: "strip line = t @ SPACE # s @ SPACE # r" "SPACE \<notin> set t" "SPACE \<notin> set s"
      and p: "py_split_max (strip line) SPACE 2 = [t, s, r]" by blast
    from False have "strip line \<noteq> []" "\<not> startswith line [HASH]" by simp_all
    from parse_parts [OF this p, of lib] d \<open>\<not> startswith line [HASH]\<close>
    show ?thesis by blast
  qed
qed

lemma parse_Some_D:
  assumes "parse_cc_cedict_line lib line = Inr (Some e)"
  shows "\<exists>t s r py zy. strip line = t @ SPACE # s @ SPACE # r \<and> SPACE \<notin> set t \<and> SPACE \<notin> set s \<and>
      \<not> startswith line [HASH] \<and>
      get_pinyin_from_characters lib t = Inr py \<and>
      get_zhuyin_from_characters lib t = Inr zy \<and>
      e = \<lparr>traditional = t, simplified = s, pinyin = py, zhuyin = zy,
           meaning = meanings_of r, is_idiom = (4 \<le> length t \<or> 4 \<le> length s)\<rparr>"
proof -
  from parse_cases [of lib line] assms
  obtain t s r where d: "strip line = t @ SPACE # s @ SPACE # r" "SPACE \<notin> set t"
      "SPACE \<notin> set s" "\<not> startswith line [HASH]"
    and p: "parse_cc_cedict_line lib line =
        (case get_pinyin_from_characters lib t of
           Inl e \<Rightarrow> Inl e
         | Inr py \<Rightarrow>
             (case get_zhuyin_from_characters lib t of
                Inl e \<Rightarrow> Inl e
              | Inr zy \<Rightarrow>
                  Inr (Some \<lparr>traditional = t, simplified = s, pinyin = py, zhuyin = zy,
                             meaning = meanings_of r,
                             is_idiom = (4 \<le> length t \<or> 4 \<le> length s)\<rparr>)))"
    by auto
  from p assms obtain py where py: "get_pinyin_from_characters lib t = Inr py"
    by (cases "get_pinyin_from_characters lib t") auto
  from p assms py obtain zy where zy: "get_zhuyin_from_characters lib t = Inr zy"
    by (cases "get_zhuyin_from_characters lib t") auto
  from p assms py zy
  have "e = \<lparr>traditional = t, simplified = s, pinyin = py, zhuyin = zy,
           meaning = meanings_of r, is_idiom = (4 \<le> length t \<or> 4 \<le> length s)\<rparr>"
    by simp
  with d py zy show ?thesis by blast
qed

lemma parse_Some_I:
  assumes "\<not> startswith line [HASH]"
    and "strip line = t @ SPACE # s @ SPACE # r" "SPACE \<notin> set t" "SPACE \<notin> set s"
    and "get_pinyin_from_characters lib t = Inr py"
    and "get_zhuyin_from_characters lib t = Inr zy"
  shows "parse_cc_cedict_line lib line =
     Inr (Some \<lparr>traditional = t, simplified = s, pinyin = py, zhuyin = zy,
                meaning = meanings_of r, is_idiom = (4 \<le> length t \<or> 4 \<le> length s)\<rparr>)"
proof -
  have "py_split_max (strip line) SPACE 2 = [t, s, r]"
    using assms(2-4) by (simp add: py_split_max_2_parts)
  moreover have "strip line \<noteq> []" using assms(2) by simp
  ultimately show ?thesis
    using parse_parts [of line t s r lib] assms(1,5,6) by simp
qed


lemma parse_error_origin:
  assumes "parse_cc_cedict_line lib line = Inl err"
  shows "get_pinyin_from_characters lib (takeWhile (\<lambda>c. c \<noteq> SPACE) (strip line)) = Inl err \<or>
         get_zhuyin_from_characters lib (takeWhile (\<lambda>c. c \<noteq> SPACE) (strip line)) = Inl err"
proof -
  from parse_cases [of lib line] assms
  obtain t s r where d: "strip line = t @ SPACE # s @ SPACE # r" "SPACE \<notin> set t"
    and p: "parse_cc_cedict_line lib line =
        (case get_pinyin_from_characters lib t of
           Inl e \<Rightarrow> Inl e
         | Inr py \<Rightarrow>
             (case get_zhuyin_from_characters lib t of
                Inl e \<Rightarrow> Inl e
              | Inr zy \<Rightarrow>
                  Inr (Some \<lparr>traditional = t, simplified = s, pinyin = py, zhuyin = zy,
                             meaning = meanings_of r,
                             is_idiom = (4 \<le> length t \<or> 4 \<le> length s)\<rparr>)))"
    by auto
  from d have t: "takeWhile (\<lambda>c. c \<noteq> SPACE) (strip line) = t"
    by (simp add: takeWhile_sep_append)
  show ?thesis
  proof (cases "get_pinyin_from_characters lib t")
    case (Inl e)
    with p assms t show ?thesis by simp
  next
    case py: (Inr py)
    show ?thesis
    proof (cases "get_zhuyin_from_characters lib t")
      case (Inl e)
      with p py assms t show ?thesis by simp
    next
      case (Inr zy)
      with p py assms show ?thesis by simp
    qed
  qed
qed

lemma parse_traditional_takeWhile:
  assumes "parse_cc_cedict_line lib line = Inr (Some e)"
  shows "traditional e = takeWhile (\<lambda>c. c \<noteq> SPACE) (strip line)"
    and "get_pinyin_from_characters lib (traditional e) = Inr (pinyin e)"
    and "get_zhuyin_from_characters lib (traditional e) = Inr (zhuyin e)"
proof -
  from parse_Some_D [OF assms]
  obtain t s r py zy where d: "strip line = t @ SPACE # s @ SPACE # r" "SPACE \<notin> set t"
    and o: "get_pinyin_from_characters lib t = Inr py" "get_zhuyin_from_characters lib t = Inr zy"
    and e: "e = \<lparr>traditional = t, simplified = s, pinyin = py, zhuyin = zy,
           meaning = meanings_of r, is_idiom = (4 \<le> length t \<or> 4 \<le> length s)\<rparr>"
    by blast
  from d have "takeWhile (\<lambda>c. c \<noteq> SPACE) (strip line) = t"
    by (simp add: takeWhile_sep_append)
  with o e show "traditional e = takeWhile (\<lambda>c. c \<noteq> SPACE) (strip line)"
    and "get_pinyin_from_characters lib (traditional e) = Inr (pinyin e)"
    and "get_zhuyin_from_characters lib (traditional e) = Inr (zhuyin e)"
    by simp_all
qed

section \<open>Rules for evaluating the model on concrete lines\<close>

lemmas char_defs = SPACE_def NEWLINE_def HASH_def SLASH_def LBRACKET_def RBRACKET_def

lemmas eval_defs = ustr_def strip_def py_isspace_def startswith_def endswith_def slice_1_m1_def
  py_index_def
  char_defs parse_cc_cedict_line_def meanings_of_def get_pinyin_from_characters_def
  get_zhuyin_from_characters_def echo_lib_def faulty_lib_def Let_def numeral_2_eq_2

section \<open>The sample libraries and total transliteration\<close>

lemma first_readings_echo: "first_readings (map (\<lambda>c. [[c]]) cs) = Inr (map (\<lambda>c. [c]) cs)"
  by (induction cs) (simp_all add: py_index_def)

text \<open>
  A library that never raises and never returns an empty item makes the
  transliteration step total.
\<close>

lemma first_readings_Inr:
  "[] \<notin> set items \<Longrightarrow> \<exists>rs. first_readings items = Inr rs"
proof (induction items)
  case Nil
  then show ?case by simp
next
  case (Cons item items)
  then obtain rs where "first_readings items = Inr rs" by auto
  moreover from Cons.prems obtain r rest where "item = r # rest" by (cases item) auto
  ultimately show ?case by (simp add: py_index_def)
qed

lemma oracle_total_wellformed:
  assumes "\<forall>characters st. \<exists>items. lib characters st = Inr items \<and> [] \<notin> set items"
  shows "oracle_total lib"
proof -
  have "\<exists>r. (if characters = [] then Inr []
         else case lib characters st of
                Inl e \<Rightarrow> Inl e
              | Inr items \<Rightarrow>
                  (case first_readings items of
                     Inl e \<Rightarrow> Inl e
                   | Inr rs \<Rightarrow> Inr (join [SPACE] rs))) = (Inr r :: py_error + ustring)"
    for characters st
  proof -
    from assms obtain items where i: "lib characters st = Inr items" "[] \<notin> set items"
      by blast
    from first_readings_Inr [OF i(2)] obtain rs where "first_readings items = Inr rs" ..
    with i show ?thesis by simp
  qed
  then show ?thesis
    by (simp only: oracle_total_def get_pinyin_from_characters_def
        get_zhuyin_from_characters_def) blast
qed

lemma oracle_total_echo: "oracle_total echo_lib"
  by (simp add: oracle_total_def get_pinyin_from_characters_def get_zhuyin_from_characters_def
      echo_lib_def first_readings_echo)

section \<open>The glosses in the words of the specification\<close>

lemma startswith_single: "startswith g [c] \<longleftrightarrow> g \<noteq> [] \<and> hd g = c"
  by (cases g) (simp_all add: startswith_def)

lemma endswith_single: "endswith g [c] \<longleftrightarrow> g \<noteq> [] \<and> last g = c"
proof (cases "g = []")
  case True
  then show ?thesis by (simp add: endswith_def)
next
  case False
  then have "g = butlast g @ [last g]" by simp
  then have "drop (length g - 1) g = [last g]"
    by (metis append_eq_conv_conj length_butlast)
  with False show ?thesis by (cases g) (simp_all add: endswith_def)
qed

lemma comprehension_filter_map:
  "concat (map (\<lambda>m. if strip m \<noteq> [] then [strip m] else []) xs)
     = filter (\<lambda>p. p \<noteq> []) (map strip xs)"
  by (induction xs) simp_all

lemma meanings_of_spec: "meanings_of rest = spec_glosses rest"
  by (simp add: meanings_of_def spec_glosses_def Let_def startswith_single endswith_single
      slice_1_m1_def comprehension_filter_map)



section \<open>Skipped lines\<close>

text \<open>
  A line is skipped when it is empty after trimming, or when its untrimmed text begins
  with \<open>#\<close>: the result is \<open>None\<close> and no exception is raised, whatever the
  library does. The lines \<open>""\<close>, \<open>"   "\<close> and \<open>"# comment"\<close> are skipped.
\<close>

lemma blank_and_comment_skipped:
  "(strip line = [] \<or> startswith line [HASH] \<longrightarrow> parse_cc_cedict_line lib line = Inr None) \<and>
   parse_cc_cedict_line lib (ustr '''') = Inr None \<and>
   parse_cc_cedict_line lib (ustr ''   '') = Inr None \<and>
   parse_cc_cedict_line lib (ustr ''# comment'') = Inr None"
proof -
  have "strip (ustr '''') = []" by (simp add: ustr_def strip_def)
  moreover have "strip (ustr ''   '') = []" by (simp add: ustr_def strip_def py_isspace_def)
  moreover have "startswith (ustr ''# comment'') [HASH]"
    by (simp add: ustr_def startswith_def HASH_def)
  ultimately show ?thesis by (simp add: parse_skip)
qed

text \<open>
  Claim C3 fails on the code. The comment of line 84 announces that empty lines and
  comments are skipped, and the test for an empty line is made on the stripped line,
  but the test for a comment in line 85 is made on the line as read, before line 89
  strips it. The line \<open>" # a b"\<close> begins with \<open>#\<close> once trimmed; it is not skipped
  but parsed into an entry whose traditional headword is \<open>#\<close>. The same comment
  without the leading space is skipped, and so is the indented \<open>" # comment"\<close>, which
  has too few parts.
\<close>

theorem indented_comment_not_skipped:
  "startswith (strip (ustr '' # a b'')) [HASH] \<and>
   parse_cc_cedict_line echo_lib (ustr '' # a b'') =
     Inr (Some \<lparr>traditional = ustr ''#'', simplified = ustr ''a'', pinyin = ustr ''#'',
                zhuyin = ustr ''#'', meaning = [], is_idiom = False\<rparr>) \<and>
   parse_cc_cedict_line echo_lib (ustr '' # comment'') = Inr None \<and>
   parse_cc_cedict_line echo_lib (ustr ''# a b'') = Inr None"
  by (simp add: eval_defs)




section \<open>Headwords and idioms\<close>

text \<open>
  Claim C4, as the code has it. The headwords come from \<open>split(' ', 2)\<close> on the
  trimmed line, which cuts at single space characters (U+0020) only: the trimmed line
  is the traditional field, a space, the simplified field, a space, and the remainder;
  neither field contains a space; the traditional field is not empty. The simplified
  field may be empty, and either field may contain whitespace other than the space
  character.
\<close>

theorem headword_fields:
  assumes "parse_cc_cedict_line lib line = Inr (Some e)"
  shows "\<exists>rest. strip line = traditional e @ SPACE # simplified e @ SPACE # rest \<and>
           SPACE \<notin> set (traditional e) \<and> SPACE \<notin> set (simplified e) \<and>
           traditional e \<noteq> []"
proof -
  from parse_Some_D [OF assms]
  obtain t s r py zy where d: "strip line = t @ SPACE # s @ SPACE # r"
      "SPACE \<notin> set t" "SPACE \<notin> set s"
    and e: "e = \<lparr>traditional = t, simplified = s, pinyin = py, zhuyin = zy,
           meaning = meanings_of r, is_idiom = (4 \<le> length t \<or> 4 \<le> length s)\<rparr>"
    by blast
  have "t \<noteq> []"
  proof
    assume "t = []"
    with d have "hd (strip line) = SPACE" and "strip line \<noteq> []" by simp_all
    moreover have "py_isspace SPACE" by (simp add: py_isspace_def SPACE_def)
    ultimately show False using strip_hd_not_space [of line] by simp
  qed
  with d e show ?thesis by simp
qed

text \<open>
  On \<open>"ab cd [x] /m/"\<close> the fields are \<open>ab\<close> and \<open>cd\<close>.
\<close>

theorem headword_fields_witness:
  "parse_cc_cedict_line echo_lib (ustr ''ab cd [x] /m/'') =
     Inr (Some \<lparr>traditional = ustr ''ab'', simplified = ustr ''cd'', pinyin = ustr ''a b'',
                zhuyin = ustr ''a b'', meaning = [ustr ''m''], is_idiom = False\<rparr>) \<and>
   (\<exists>rest. strip (ustr ''ab cd [x] /m/'') = ustr ''ab'' @ SPACE # ustr ''cd'' @ SPACE # rest \<and>
      SPACE \<notin> set (ustr ''ab'') \<and> SPACE \<notin> set (ustr ''cd'') \<and> ustr ''ab'' \<noteq> [])"
proof -
  have h: "parse_cc_cedict_line echo_lib (ustr ''ab cd [x] /m/'') =
     Inr (Some \<lparr>traditional = ustr ''ab'', simplified = ustr ''cd'', pinyin = ustr ''a b'',
                zhuyin = ustr ''a b'', meaning = [ustr ''m''], is_idiom = False\<rparr>)"
    by (simp add: eval_defs py_split.simps)
  from headword_fields [OF h] h show ?thesis by simp
qed

text \<open>
  Claim C4 as stated fails when two spaces follow the first token: for
  \<open>"a  b c"\<close> the split gives the parts \<open>a\<close>, the empty string and \<open>b c\<close>, so the
  simplified field is empty, and it is not the second whitespace-delimited token \<open>b\<close>.
\<close>

theorem empty_simplified_counterexample:
  "parse_cc_cedict_line echo_lib (ustr ''a  b c'') =
     Inr (Some \<lparr>traditional = ustr ''a'', simplified = [], pinyin = ustr ''a'',
                zhuyin = ustr ''a'', meaning = [], is_idiom = False\<rparr>)"
  by (simp add: eval_defs)

text \<open>
  Claim C6. For every entry the parser produces, \<open>is_idiom\<close> holds exactly when the
  traditional or the simplified field has at least four code points.
\<close>

theorem idiom_classification:
  assumes "parse_cc_cedict_line lib line = Inr (Some e)"
  shows "is_idiom e \<longleftrightarrow> 4 \<le> length (traditional e) \<or> 4 \<le> length (simplified e)"
proof -
  from parse_Some_D [OF assms]
  obtain t s r py zy where
    "e = \<lparr>traditional = t, simplified = s, pinyin = py, zhuyin = zy,
           meaning = meanings_of r, is_idiom = (4 \<le> length t \<or> 4 \<le> length s)\<rparr>"
    by blast
  then show ?thesis by simp
qed

text \<open>
  The four characters U+4E00 U+5E06 U+98A8 U+9806 as the traditional field make an
  idiom; the two characters U+4F60 U+597D, with the same two as the simplified field,
  do not.
\<close>

theorem idiom_classification_witness:
  "parse_cc_cedict_line echo_lib
      ([19968, 24070, 39080, 38918, 32, 19968, 24070, 39118, 38906, 32] @ ustr ''[yi1] /smooth/'') =
     Inr (Some \<lparr>traditional = [19968, 24070, 39080, 38918],
                simplified = [19968, 24070, 39118, 38906],
                pinyin = [19968, 32, 24070, 32, 39080, 32, 38918],
                zhuyin = [19968, 32, 24070, 32, 39080, 32, 38918],
                meaning = [ustr ''smooth''], is_idiom = True\<rparr>) \<and>
   parse_cc_cedict_line echo_lib ([20320, 22909, 32, 20320, 22909, 32] @ ustr ''[ni3 hao3] /hello/'') =
     Inr (Some \<lparr>traditional = [20320, 22909], simplified = [20320, 22909],
                pinyin = [20320, 32, 22909], zhuyin = [20320, 32, 22909],
                meaning = [ustr ''hello''], is_idiom = False\<rparr>)"
proof -
  let ?l1 = "[19968, 24070, 39080, 38918, 32, 19968, 24070, 39118, 38906, 32] @ ustr ''[yi1] /smooth/''"
  let ?l2 = "[20320, 22909, 32, 20320, 22909, 32] @ ustr ''[ni3 hao3] /hello/''"
  obtain e1 where e1: "parse_cc_cedict_line echo_lib ?l1 = Inr (Some e1)"
    "traditional e1 = [19968, 24070, 39080, 38918]" "simplified e1 = [19968, 24070, 39118, 38906]"
    "pinyin e1 = [19968, 32, 24070, 32, 39080, 32, 38918]"
    "zhuyin e1 = [19968, 32, 24070, 32, 39080, 32, 38918]" "meaning e1 = [ustr ''smooth'']"
    by (simp add: eval_defs py_split.simps)
  obtain e2 where e2: "parse_cc_cedict_line echo_lib ?l2 = Inr (Some e2)"
    "traditional e2 = [20320, 22909]" "simplified e2 = [20320, 22909]"
    "pinyin e2 = [20320, 32, 22909]" "zhuyin e2 = [20320, 32, 22909]" "meaning e2 = [ustr ''hello'']"
    by (simp add: eval_defs py_split.simps)
  from idiom_classification [OF e1(1)] e1 have "is_idiom e1" by simp
  moreover from idiom_classification [OF e2(1)] e2 have "\<not> is_idiom e2" by simp
  ultimately show ?thesis using e1 e2 by (simp add: entry.equality)
qed

section \<open>Pronunciation fields\<close>

text \<open>
  Claim C7, as the code has it. The pinyin and zhuyin fields are obtained from the
  traditional field alone, and the traditional field is the text of the trimmed line
  before its first space character (U+0020). Two lines whose trimmed forms agree up to
  the first space give entries with the same traditional, pinyin and zhuyin fields,
  whatever the simplified token, the bracketed romanization and the glosses are. The
  pinyin and zhuyin of an entry are the results of \<open>get_pinyin_from_characters\<close> and
  \<open>get_zhuyin_from_characters\<close> on its traditional field, and both functions return
  the empty string on the empty string.
\<close>

theorem pronunciation_from_traditional:
  "(parse_cc_cedict_line lib l1 = Inr (Some e1) \<and> parse_cc_cedict_line lib l2 = Inr (Some e2) \<and>
      takeWhile (\<lambda>c. c \<noteq> SPACE) (strip l1) = takeWhile (\<lambda>c. c \<noteq> SPACE) (strip l2)
    \<longrightarrow> traditional e1 = traditional e2 \<and> pinyin e1 = pinyin e2 \<and> zhuyin e1 = zhuyin e2) \<and>
   (parse_cc_cedict_line lib l1 = Inr (Some e1)
    \<longrightarrow> get_pinyin_from_characters lib (traditional e1) = Inr (pinyin e1) \<and>
        get_zhuyin_from_characters lib (traditional e1) = Inr (zhuyin e1)) \<and>
   get_pinyin_from_characters lib [] = Inr [] \<and>
   get_zhuyin_from_characters lib [] = Inr []"
proof (intro conjI impI)
  assume a: "parse_cc_cedict_line lib l1 = Inr (Some e1) \<and> parse_cc_cedict_line lib l2 = Inr (Some e2) \<and>
      takeWhile (\<lambda>c. c \<noteq> SPACE) (strip l1) = takeWhile (\<lambda>c. c \<noteq> SPACE) (strip l2)"
  then have p1: "parse_cc_cedict_line lib l1 = Inr (Some e1)"
    and p2: "parse_cc_cedict_line lib l2 = Inr (Some e2)" by simp_all
  from parse_traditional_takeWhile(1) [OF p1] parse_traditional_takeWhile(1) [OF p2] a
  have t: "traditional e1 = traditional e2" by simp
  then show "traditional e1 = traditional e2" .
  have "Inr (pinyin e1) = get_pinyin_from_characters lib (traditional e1)"
    using parse_traditional_takeWhile(2) [OF p1] by simp
  also have "\<dots> = get_pinyin_from_characters lib (traditional e2)" by (simp only: t)
  also have "\<dots> = Inr (pinyin e2)" using parse_traditional_takeWhile(2) [OF p2] by simp
  finally show "pinyin e1 = pinyin e2" by simp
  have "Inr (zhuyin e1) = get_zhuyin_from_characters lib (traditional e1)"
    using parse_traditional_takeWhile(3) [OF p1] by simp
  also have "\<dots> = get_zhuyin_from_characters lib (traditional e2)" by (simp only: t)
  also have "\<dots> = Inr (zhuyin e2)" using parse_traditional_takeWhile(3) [OF p2] by simp
  finally show "zhuyin e1 = zhuyin e2" by simp
next
  assume p: "parse_cc_cedict_line lib l1 = Inr (Some e1)"
  show "get_pinyin_from_characters lib (traditional e1) = Inr (pinyin e1)"
    by (rule parse_traditional_takeWhile(2) [OF p])
  show "get_zhuyin_from_characters lib (traditional e1) = Inr (zhuyin e1)"
    by (rule parse_traditional_takeWhile(3) [OF p])
next
  show "get_pinyin_from_characters lib [] = Inr []"
    by (simp add: get_pinyin_from_characters_def)
  show "get_zhuyin_from_characters lib [] = Inr []"
    by (simp add: get_zhuyin_from_characters_def)
qed

text \<open>
  Two lines with the traditional field \<open>ab\<close> and different simplified tokens,
  romanizations and glosses have the same pinyin and zhuyin.
\<close>

theorem pronunciation_from_traditional_witness:
  "parse_cc_cedict_line echo_lib (ustr ''ab cd [x] /m/'') =
     Inr (Some \<lparr>traditional = ustr ''ab'', simplified = ustr ''cd'', pinyin = ustr ''a b'',
                zhuyin = ustr ''a b'', meaning = [ustr ''m''], is_idiom = False\<rparr>) \<and>
   parse_cc_cedict_line echo_lib (ustr ''ab efgh [yy] /n/o/'') =
     Inr (Some \<lparr>traditional = ustr ''ab'', simplified = ustr ''efgh'', pinyin = ustr ''a b'',
                zhuyin = ustr ''a b'', meaning = [ustr ''n'', ustr ''o''], is_idiom = True\<rparr>) \<and>
   takeWhile (\<lambda>c. c \<noteq> SPACE) (strip (ustr ''ab cd [x] /m/'')) =
     takeWhile (\<lambda>c. c \<noteq> SPACE) (strip (ustr ''ab efgh [yy] /n/o/'')) \<and>
   get_pinyin_from_characters echo_lib (ustr ''ab'') = Inr (ustr ''a b'') \<and>
   get_zhuyin_from_characters echo_lib (ustr ''ab'') = Inr (ustr ''a b'')"
proof -
  let ?e1 = "\<lparr>traditional = ustr ''ab'', simplified = ustr ''cd'', pinyin = ustr ''a b'',
                zhuyin = ustr ''a b'', meaning = [ustr ''m''], is_idiom = False\<rparr>"
  let ?e2 = "\<lparr>traditional = ustr ''ab'', simplified = ustr ''efgh'', pinyin = ustr ''a b'',
                zhuyin = ustr ''a b'', meaning = [ustr ''n'', ustr ''o''], is_idiom = True\<rparr>"
  have h1: "parse_cc_cedict_line echo_lib (ustr ''ab cd [x] /m/'') = Inr (Some ?e1)"
    by (simp add: eval_defs py_split.simps)
  have h2: "parse_cc_cedict_line echo_lib (ustr ''ab efgh [yy] /n/o/'') = Inr (Some ?e2)"
    by (simp add: eval_defs py_split.simps)
  have h3: "takeWhile (\<lambda>c. c \<noteq> SPACE) (strip (ustr ''ab cd [x] /m/'')) =
     takeWhile (\<lambda>c. c \<noteq> SPACE) (strip (ustr ''ab efgh [yy] /n/o/''))"
    by (simp add: ustr_def strip_def py_isspace_def SPACE_def)
  from pronunciation_from_traditional
    [of echo_lib "ustr ''ab cd [x] /m/''" ?e1 "ustr ''ab efgh [yy] /n/o/''" ?e2] h1 h2 h3
  show ?thesis by simp
qed

text \<open>
  Claim C7 as stated fails when the first whitespace-delimited token ends at a
  whitespace character other than the space. The lines \<open>"a<TAB>b c d"\<close> and
  \<open>"a c d"\<close> have the same first whitespace-delimited token \<open>a\<close>, but the traditional
  field of the first is \<open>a<TAB>b\<close>, and with a library that reads every character as
  itself the pinyin and zhuyin fields differ.
\<close>

theorem whitespace_token_counterexample:
  "first_ws_token [97, 9, 98, 32, 99, 32, 100] = first_ws_token (ustr ''a c d'') \<and>
   parse_cc_cedict_line echo_lib [97, 9, 98, 32, 99, 32, 100] =
     Inr (Some \<lparr>traditional = [97, 9, 98], simplified = ustr ''c'', pinyin = [97, 32, 9, 32, 98],
                zhuyin = [97, 32, 9, 32, 98], meaning = [], is_idiom = False\<rparr>) \<and>
   parse_cc_cedict_line echo_lib (ustr ''a c d'') =
     Inr (Some \<lparr>traditional = ustr ''a'', simplified = ustr ''c'', pinyin = ustr ''a'',
                zhuyin = ustr ''a'', meaning = [], is_idiom = False\<rparr>)"
  by (simp add: eval_defs first_ws_token_def)

section \<open>Lines without a remainder\<close>




section \<open>Totality of the line parser\<close>

text \<open>
  The guard of lines 94 and 95 is what keeps \<open>parts[2]\<close> in range: on the two parts
  of \<open>"ab cd"\<close> the index 2 raises IndexError.
\<close>

lemma index_without_guard_raises:
  "py_split_max (strip (ustr ''ab cd'')) SPACE 2 = [ustr ''ab'', ustr ''cd''] \<and>
   py_index (py_split_max (strip (ustr ''ab cd'')) SPACE 2) 2 = Inl IndexError"
  by (simp add: ustr_def strip_def py_isspace_def SPACE_def numeral_2_eq_2 py_index_def)

text \<open>
  Claim C10. An exception that leaves the parser is one that the transliteration of
  the traditional field raised: the indexing of \<open>parts\<close> is always in range, and no
  other step raises, on unmatched or malformed brackets and on glosses without slashes
  as on any other text. Hence, when the transliteration step never raises, the parser
  returns on every line, and what it returns is \<open>None\<close> or a record of the six fields
  traditional, simplified, pinyin, zhuyin, meaning and is_idiom. All functions of the
  model are total, with their termination proved.
\<close>

theorem parse_total:
  "(oracle_total lib \<longrightarrow>
      parse_cc_cedict_line lib line = Inr None \<or>
      (\<exists>t s py zy ms b. parse_cc_cedict_line lib line =
         Inr (Some \<lparr>traditional = t, simplified = s, pinyin = py, zhuyin = zy,
                    meaning = ms, is_idiom = b\<rparr>))) \<and>
   (parse_cc_cedict_line lib line = Inl err \<longrightarrow>
      get_pinyin_from_characters lib (takeWhile (\<lambda>c. c \<noteq> SPACE) (strip line)) = Inl err \<or>
      get_zhuyin_from_characters lib (takeWhile (\<lambda>c. c \<noteq> SPACE) (strip line)) = Inl err)"
proof (intro conjI impI)
  assume "parse_cc_cedict_line lib line = Inl err"
  then show "get_pinyin_from_characters lib (takeWhile (\<lambda>c. c \<noteq> SPACE) (strip line)) = Inl err \<or>
      get_zhuyin_from_characters lib (takeWhile (\<lambda>c. c \<noteq> SPACE) (strip line)) = Inl err"
    by (rule parse_error_origin)
next
  assume total: "oracle_total lib"
  show "parse_cc_cedict_line lib line = Inr None \<or>
      (\<exists>t s py zy ms b. parse_cc_cedict_line lib line =
         Inr (Some \<lparr>traditional = t, simplified = s, pinyin = py, zhuyin = zy,
                    meaning = ms, is_idiom = b\<rparr>))"
  proof (cases "parse_cc_cedict_line lib line")
    case (Inl err)
    from parse_error_origin [OF Inl] total show ?thesis
      unfolding oracle_total_def by (metis Inl_Inr_False)
  next
    case (Inr r)
    show ?thesis
    proof (cases r)
      case None
      with Inr show ?thesis by simp
    next
      case (Some e)
      with Inr have "parse_cc_cedict_line lib line =
         Inr (Some \<lparr>traditional = traditional e, simplified = simplified e, pinyin = pinyin e,
                    zhuyin = zhuyin e, meaning = meaning e, is_idiom = is_idiom e\<rparr>)"
        by simp
      then show ?thesis by blast
    qed
  qed
qed

text \<open>
  The library that reads every character as itself is total, and the line
  \<open>"ab cd ]x[ [y /m1/ m2"\<close>, with unmatched brackets and no closing slash, is parsed.
\<close>

theorem parse_total_witness:
  "oracle_total echo_lib \<and>
   (parse_cc_cedict_line echo_lib (ustr ''ab cd ]x[ [y /m1/ m2'') = Inr None \<or>
    (\<exists>t s py zy ms b. parse_cc_cedict_line echo_lib (ustr ''ab cd ]x[ [y /m1/ m2'') =
       Inr (Some \<lparr>traditional = t, simplified = s, pinyin = py, zhuyin = zy,
                  meaning = ms, is_idiom = b\<rparr>)))"
  by (rule conjI [OF oracle_total_echo parse_total [THEN conjunct1, THEN mp, OF oracle_total_echo]])

section \<open>Gloss extraction\<close>

text \<open>
  Claim C2. \<open>spec_glosses\<close> is the gloss list in the words of the specification. For
  a line that is not a comment, whose trimmed form is a first token, a space, a second
  token, a space and a remainder, and on whose first token the transliteration step
  succeeds, the parser returns an entry whose meaning is \<open>spec_glosses\<close> of the
  remainder, whatever the shape of the remainder. Conversely every entry the parser
  returns comes from such a remainder. The remainder
  \<open>"[yi4] /one/single/a (article)/"\<close> gives the glosses \<open>one\<close>, \<open>single\<close>,
  \<open>a (article)\<close>.
\<close>

theorem gloss_extraction:
  "(\<not> startswith line [HASH] \<and> strip line = t @ SPACE # s @ SPACE # rest \<and>
      SPACE \<notin> set t \<and> SPACE \<notin> set s \<and>
      get_pinyin_from_characters lib t = Inr py \<and> get_zhuyin_from_characters lib t = Inr zy
    \<longrightarrow> (\<exists>e. parse_cc_cedict_line lib line = Inr (Some e) \<and> meaning e = spec_glosses rest)) \<and>
   (parse_cc_cedict_line lib line = Inr (Some e)
    \<longrightarrow> (\<exists>t s rest. strip line = t @ SPACE # s @ SPACE # rest \<and>
           SPACE \<notin> set t \<and> SPACE \<notin> set s \<and> meaning e = spec_glosses rest)) \<and>
   spec_glosses (ustr ''[yi4] /one/single/a (article)/'') =
     [ustr ''one'', ustr ''single'', ustr ''a (article)'']"
proof (intro conjI impI)
  assume a: "\<not> startswith line [HASH] \<and> strip line = t @ SPACE # s @ SPACE # rest \<and>
      SPACE \<notin> set t \<and> SPACE \<notin> set s \<and>
      get_pinyin_from_characters lib t = Inr py \<and> get_zhuyin_from_characters lib t = Inr zy"
  then have "parse_cc_cedict_line lib line =
     Inr (Some \<lparr>traditional = t, simplified = s, pinyin = py, zhuyin = zy,
                meaning = meanings_of rest, is_idiom = (4 \<le> length t \<or> 4 \<le> length s)\<rparr>)"
    by (intro parse_Some_I) simp_all
  then show "\<exists>e. parse_cc_cedict_line lib line = Inr (Some e) \<and> meaning e = spec_glosses rest"
    by (simp add: meanings_of_spec)
next
  assume "parse_cc_cedict_line lib line = Inr (Some e)"
  from parse_Some_D [OF this]
  obtain t s r py zy where d: "strip line = t @ SPACE # s @ SPACE # r"
      "SPACE \<notin> set t" "SPACE \<notin> set s"
    and e: "e = \<lparr>traditional = t, simplified = s, pinyin = py, zhuyin = zy,
           meaning = meanings_of r, is_idiom = (4 \<le> length t \<or> 4 \<le> length s)\<rparr>"
    by blast
  from e have "meaning e = spec_glosses r" by (simp add: meanings_of_spec)
  with d show "\<exists>t s rest. strip line = t @ SPACE # s @ SPACE # rest \<and>
           SPACE \<notin> set t \<and> SPACE \<notin> set s \<and> meaning e = spec_glosses rest"
    by blast
next
  show "spec_glosses (ustr ''[yi4] /one/single/a (article)/'') =
     [ustr ''one'', ustr ''single'', ustr ''a (article)'']"
    by (simp add: spec_glosses_def ustr_def strip_def py_isspace_def char_defs py_split.simps)
qed

text \<open>
  The line of U+4E00, space, U+4E00, space and the remainder above gives the three
  glosses; with the remainder \<open>"[yi4] one/single"\<close>, which lacks the enclosing
  slashes, it gives an entry with no gloss.
\<close>

theorem gloss_extraction_witness:
  "parse_cc_cedict_line echo_lib ([19968, 32, 19968, 32] @ ustr ''[yi4] /one/single/a (article)/'') =
     Inr (Some \<lparr>traditional = [19968], simplified = [19968], pinyin = [19968], zhuyin = [19968],
                meaning = [ustr ''one'', ustr ''single'', ustr ''a (article)''],
                is_idiom = False\<rparr>) \<and>
   parse_cc_cedict_line echo_lib ([19968, 32, 19968, 32] @ ustr ''[yi4] one/single'') =
     Inr (Some \<lparr>traditional = [19968], simplified = [19968], pinyin = [19968], zhuyin = [19968],
                meaning = [], is_idiom = False\<rparr>)"
proof -
  let ?l1 = "[19968, 32, 19968, 32] @ ustr ''[yi4] /one/single/a (article)/''"
  let ?l2 = "[19968, 32, 19968, 32] @ ustr ''[yi4] one/single''"
  have o: "get_pinyin_from_characters echo_lib [19968] = Inr [19968]"
    "get_zhuyin_from_characters echo_lib [19968] = Inr [19968]"
    by (simp_all add: get_pinyin_from_characters_def get_zhuyin_from_characters_def echo_lib_def
        py_index_def)
  have n: "SPACE \<notin> set [19968]" by (simp add: SPACE_def)
  have h1: "\<not> startswith ?l1 [HASH]" "strip ?l1 = [19968] @ SPACE # [19968] @ SPACE # ustr ''[yi4] /one/single/a (article)/''"
    by (simp_all add: startswith_def ustr_def strip_def py_isspace_def char_defs)
  have h2: "\<not> startswith ?l2 [HASH]" "strip ?l2 = [19968] @ SPACE # [19968] @ SPACE # ustr ''[yi4] one/single''"
    by (simp_all add: startswith_def ustr_def strip_def py_isspace_def char_defs)
  have g2: "spec_glosses (ustr ''[yi4] one/single'') = []"
    by (simp add: spec_glosses_def ustr_def strip_def py_isspace_def char_defs)
  have "\<exists>e. parse_cc_cedict_line echo_lib ?l1 = Inr (Some e) \<and>
          meaning e = spec_glosses (ustr ''[yi4] /one/single/a (article)/'')"
    by (rule gloss_extraction [where line = ?l1 and t = "[19968]" and s = "[19968]"
          and lib = echo_lib and py = "[19968]" and zy = "[19968]", THEN conjunct1, THEN mp])
       (simp only: h1 n o simp_thms)
  moreover have "spec_glosses (ustr ''[yi4] /one/single/a (article)/'') =
      [ustr ''one'', ustr ''single'', ustr ''a (article)'']"
    by (rule gloss_extraction [THEN conjunct2, THEN conjunct2])
  ultimately obtain e1 where e1: "parse_cc_cedict_line echo_lib ?l1 = Inr (Some e1)"
    "meaning e1 = [ustr ''one'', ustr ''single'', ustr ''a (article)'']" by auto
  have "\<exists>e. parse_cc_cedict_line echo_lib ?l2 = Inr (Some e) \<and>
          meaning e = spec_glosses (ustr ''[yi4] one/single'')"
    by (rule gloss_extraction [where line = ?l2 and t = "[19968]" and s = "[19968]"
          and lib = echo_lib and py = "[19968]" and zy = "[19968]", THEN conjunct1, THEN mp])
       (simp only: h2 n o simp_thms)
  with g2 obtain e2 where e2: "parse_cc_cedict_line echo_lib ?l2 = Inr (Some e2)" "meaning e2 = []"
    by auto
  have f1: "traditional e1 = [19968]" "simplified e1 = [19968]" "pinyin e1 = [19968]"
    "zhuyin e1 = [19968]" "is_idiom e1 = False"
    using e1(1) by (auto simp add: eval_defs py_split.simps)
  have f2: "traditional e2 = [19968]" "simplified e2 = [19968]" "pinyin e2 = [19968]"
    "zhuyin e2 = [19968]" "is_idiom e2 = False"
    using e2(1) by (auto simp add: eval_defs py_split.simps)
  from e1 e2 f1 f2 show ?thesis by (simp add: entry.equality)
qed

section \<open>The batch driver isolates faults\<close>

lemma zip_upt_Cons:
  "zip [n..<n + Suc k] (l # ls) = (n, l) # zip [Suc n..<Suc n + k] ls"
  by (simp add: upt_conv_Cons)

lemma parse_lines_eq:
  "parse_lines lib n lines es ws =
     (es @ List.map_filter (\<lambda>l. case parse_cc_cedict_line lib l of
                                   Inr (Some e) \<Rightarrow> Some e | _ \<Rightarrow> None) lines,
      ws @ List.map_filter (\<lambda>(k, l). case parse_cc_cedict_line lib l of
                                   Inl err \<Rightarrow> Some (k, err) | Inr _ \<Rightarrow> None)
             (zip [n..<n + length lines] lines))"
proof (induction lines arbitrary: n es ws)
  case Nil
  then show ?case by (simp add: map_filter_simps)
next
  case (Cons l ls)
  have z: "zip [n..<n + length (l # ls)] (l # ls) = (n, l) # zip [Suc n..<Suc n + length ls] ls"
    using zip_upt_Cons [of n "length ls" l ls] by simp
  show ?case
  proof (cases "parse_cc_cedict_line lib l")
    case (Inl err)
    then show ?thesis
      by (simp only: parse_lines.simps z Cons.IH map_filter_simps sum.case option.case
          prod.case append_assoc append_Cons append_Nil)
  next
    case (Inr r)
    then show ?thesis
      by (cases r)
        (simp_all only: parse_lines.simps z Cons.IH map_filter_simps sum.case option.case
          prod.case append_assoc append_Cons append_Nil)
  qed
qed

lemma parse_lines_valid_prefix:
  assumes "\<forall>l\<in>set xs. \<exists>e. parse_cc_cedict_line lib l = Inr (Some e)"
  shows "\<exists>es'. length es' = length xs \<and>
           parse_lines lib n (xs @ ys) es ws = parse_lines lib (n + length xs) ys (es @ es') ws"
  using assms
proof (induction xs arbitrary: n es)
  case Nil
  then show ?case by simp
next
  case (Cons x xs)
  then obtain e where e: "parse_cc_cedict_line lib x = Inr (Some e)" by auto
  from Cons.prems have "\<forall>l\<in>set xs. \<exists>e. parse_cc_cedict_line lib l = Inr (Some e)" by simp
  from Cons.IH [OF this, of "Suc n" "es @ [e]"]
  obtain es' where "length es' = length xs"
    "parse_lines lib (Suc n) (xs @ ys) (es @ [e]) ws
       = parse_lines lib (Suc n + length xs) ys ((es @ [e]) @ es') ws" by blast
  then have "length (e # es') = length (x # xs) \<and>
     parse_lines lib n ((x # xs) @ ys) es ws
       = parse_lines lib (n + length (x # xs)) ys (es @ (e # es')) ws"
    using e by simp
  then show ?case by blast
qed

text \<open>
  Claim C1. The driver returns, in order, the entries of the lines that parse to an
  entry, and one warning for each line whose parse raises, carrying the 1-based number
  of that line and the exception; a line that raises does not stop the loop. When one
  line raises and every other line parses to an entry, the driver returns as many
  entries as there are lines minus one, and the single warning for the faulty line.
\<close>

theorem fault_isolation:
  "parse_cc_cedict_file lib lines =
     (List.map_filter (\<lambda>l. case parse_cc_cedict_line lib l of
                              Inr (Some e) \<Rightarrow> Some e | _ \<Rightarrow> None) lines,
      List.map_filter (\<lambda>(k, l). case parse_cc_cedict_line lib l of
                              Inl err \<Rightarrow> Some (k, err) | Inr _ \<Rightarrow> None)
        (zip [1..<Suc (length lines)] lines)) \<and>
   ((\<forall>l\<in>set before. \<exists>e. parse_cc_cedict_line lib l = Inr (Some e)) \<and>
    parse_cc_cedict_line lib bad = Inl err \<and>
    (\<forall>l\<in>set after. \<exists>e. parse_cc_cedict_line lib l = Inr (Some e))
    \<longrightarrow> length (fst (parse_cc_cedict_file lib (before @ bad # after)))
          = length (before @ bad # after) - 1 \<and>
        snd (parse_cc_cedict_file lib (before @ bad # after)) = [(Suc (length before), err)])"
proof (intro conjI impI)
  show "parse_cc_cedict_file lib lines =
     (List.map_filter (\<lambda>l. case parse_cc_cedict_line lib l of
                              Inr (Some e) \<Rightarrow> Some e | _ \<Rightarrow> None) lines,
      List.map_filter (\<lambda>(k, l). case parse_cc_cedict_line lib l of
                              Inl err \<Rightarrow> Some (k, err) | Inr _ \<Rightarrow> None)
        (zip [1..<Suc (length lines)] lines))"
    using parse_lines_eq [of lib 1 lines "[]" "[]"] by (simp add: parse_cc_cedict_file_def)
next
  assume a: "(\<forall>l\<in>set before. \<exists>e. parse_cc_cedict_line lib l = Inr (Some e)) \<and>
    parse_cc_cedict_line lib bad = Inl err \<and>
    (\<forall>l\<in>set after. \<exists>e. parse_cc_cedict_line lib l = Inr (Some e))"
  from a parse_lines_valid_prefix [of before lib 1 "bad # after" "[]" "[]"]
  obtain es1 where es1: "length es1 = length before"
    "parse_lines lib 1 (before @ bad # after) [] []
       = parse_lines lib (1 + length before) (bad # after) es1 []" by auto
  from a have "parse_lines lib (1 + length before) (bad # after) es1 []
       = parse_lines lib (Suc (1 + length before)) after es1 [(1 + length before, err)]"
    by simp
  moreover from a parse_lines_valid_prefix [of after lib "Suc (1 + length before)" "[]" es1
      "[(1 + length before, err)]"]
  obtain es2 where es2: "length es2 = length after"
    "parse_lines lib (Suc (1 + length before)) (after @ []) es1 [(1 + length before, err)]
       = parse_lines lib (Suc (1 + length before) + length after) [] (es1 @ es2)
           [(1 + length before, err)]" by auto
  ultimately have r: "parse_cc_cedict_file lib (before @ bad # after)
      = (es1 @ es2, [(Suc (length before), err)])"
    using es1 by (simp add: parse_cc_cedict_file_def)
  from r es1 es2 show "length (fst (parse_cc_cedict_file lib (before @ bad # after)))
          = length (before @ bad # after) - 1" by simp
  from r show "snd (parse_cc_cedict_file lib (before @ bad # after)) = [(Suc (length before), err)]"
    by simp
qed

text \<open>
  Three lines, the second of which makes the library raise: two entries, and one
  warning for line 2.
\<close>

theorem fault_isolation_witness:
  "parse_cc_cedict_line faulty_lib (ustr ''ab cd [x] /m1/'') =
     Inr (Some \<lparr>traditional = ustr ''ab'', simplified = ustr ''cd'', pinyin = ustr ''a b'',
                zhuyin = ustr ''a b'', meaning = [ustr ''m1''], is_idiom = False\<rparr>) \<and>
   parse_cc_cedict_line faulty_lib (ustr ''aX cd [x] /m2/'') =
     Inl (LibraryError (ustr ''no reading'')) \<and>
   parse_cc_cedict_line faulty_lib (ustr ''abcd cd [x] /m3/'') =
     Inr (Some \<lparr>traditional = ustr ''abcd'', simplified = ustr ''cd'', pinyin = ustr ''a b c d'',
                zhuyin = ustr ''a b c d'', meaning = [ustr ''m3''], is_idiom = True\<rparr>) \<and>
   length (fst (parse_cc_cedict_file faulty_lib
      [ustr ''ab cd [x] /m1/'', ustr ''aX cd [x] /m2/'', ustr ''abcd cd [x] /m3/''])) = 2 \<and>
   snd (parse_cc_cedict_file faulty_lib
      [ustr ''ab cd [x] /m1/'', ustr ''aX cd [x] /m2/'', ustr ''abcd cd [x] /m3/''])
     = [(2, LibraryError (ustr ''no reading''))]"
proof -
  have p1: "parse_cc_cedict_line faulty_lib (ustr ''ab cd [x] /m1/'') =
     Inr (Some \<lparr>traditional = ustr ''ab'', simplified = ustr ''cd'', pinyin = ustr ''a b'',
                zhuyin = ustr ''a b'', meaning = [ustr ''m1''], is_idiom = False\<rparr>)"
    by (simp add: eval_defs py_split.simps)
  have h2: "parse_cc_cedict_line faulty_lib (ustr ''aX cd [x] /m2/'') = Inl (LibraryError (ustr ''no reading''))"
    by (simp add: eval_defs py_split.simps)
  have p3: "parse_cc_cedict_line faulty_lib (ustr ''abcd cd [x] /m3/'') =
     Inr (Some \<lparr>traditional = ustr ''abcd'', simplified = ustr ''cd'', pinyin = ustr ''a b c d'',
                zhuyin = ustr ''a b c d'', meaning = [ustr ''m3''], is_idiom = True\<rparr>)"
    by (simp add: eval_defs py_split.simps)
  have h1: "\<forall>l\<in>set [ustr ''ab cd [x] /m1/'']. \<exists>e. parse_cc_cedict_line faulty_lib l = Inr (Some e)"
    using p1 by simp
  have h3: "\<forall>l\<in>set [ustr ''abcd cd [x] /m3/'']. \<exists>e. parse_cc_cedict_line faulty_lib l = Inr (Some e)"
    using p3 by simp
  from fault_isolation [where lib = faulty_lib and before = "[ustr ''ab cd [x] /m1/'']"
      and bad = "ustr ''aX cd [x] /m2/''" and after = "[ustr ''abcd cd [x] /m3/'']"
      and err = "LibraryError (ustr ''no reading'')", THEN conjunct2, THEN mp, OF conjI [OF h1 conjI [OF h2 h3]]]
  have "length (fst (parse_cc_cedict_file faulty_lib
      ([ustr ''ab cd [x] /m1/''] @ ustr ''aX cd [x] /m2/'' # [ustr ''abcd cd [x] /m3/''])))
      = length ([ustr ''ab cd [x] /m1/''] @ ustr ''aX cd [x] /m2/'' # [ustr ''abcd cd [x] /m3/'']) - 1 \<and>
    snd (parse_cc_cedict_file faulty_lib
      ([ustr ''ab cd [x] /m1/''] @ ustr ''aX cd [x] /m2/'' # [ustr ''abcd cd [x] /m3/'']))
      = [(Suc (length [ustr ''ab cd [x] /m1/'']), LibraryError (ustr ''no reading''))]" .
  then have "length (fst (parse_cc_cedict_file faulty_lib
      [ustr ''ab cd [x] /m1/'', ustr ''aX cd [x] /m2/'', ustr ''abcd cd [x] /m3/''])) = 2 \<and>
   snd (parse_cc_cedict_file faulty_lib
      [ustr ''ab cd [x] /m1/'', ustr ''aX cd [x] /m2/'', ustr ''abcd cd [x] /m3/''])
     = [(2, LibraryError (ustr ''no reading''))]"
    by simp
  with p1 h2 p3 show ?thesis by blast
qed

end
